theory Spec2Isabelle
  imports Main "HOL-Library.Word"
begin

section \<open>Embedded MQL in YAML documents (src/src/embeddedMQL.ts)\<close>

subsection \<open>JavaScript strings\<close>

text \<open>
  A JavaScript string is a sequence of UTF-16 code units; \<open>length\<close>, \<open>split\<close>,
  \<open>trim\<close> and a regular expression without the \<open>u\<close> flag all work on code units.
  \<open>js\<close> turns an ASCII literal into such a string.
\<close>

type_synonym jschar = "16 word"
type_synonym jsstring = "jschar list"

definition js :: "string \<Rightarrow> jsstring" where
  "js s = map of_char s"

definition LF :: jschar where
  "LF = 0x0A"

text \<open>
  The characters matched by \<open>\s\<close> and removed by \<open>trim()\<close>: ECMAScript's WhiteSpace
  and LineTerminator productions (TAB, LF, VT, FF, CR, SP, NBSP, the Unicode space
  separators, LS, PS and the byte order mark).
\<close>

definition isSpace :: "jschar \<Rightarrow> bool" where
  "isSpace c \<longleftrightarrow>
     c = 0x09 \<or> c = 0x0A \<or> c = 0x0B \<or> c = 0x0C \<or> c = 0x0D \<or> c = 0x20 \<or>
     c = 0xA0 \<or> c = 0x1680 \<or> (0x2000 \<le> c \<and> c \<le> 0x200A) \<or>
     c = 0x2028 \<or> c = 0x2029 \<or> c = 0x202F \<or> c = 0x205F \<or> c = 0x3000 \<or>
     c = 0xFEFF"

text \<open>\<open>text.split("\n")\<close>: never empty; the empty text gives one empty line.\<close>

fun split_newline :: "jsstring \<Rightarrow> jsstring list" where
  "split_newline [] = [[]]"
| "split_newline (c # cs) =
     (if c = LF then [] # split_newline cs
      else (case split_newline cs of
              [] \<Rightarrow> [[c]]
            | l # ls \<Rightarrow> (c # l) # ls))"

text \<open>\<open>lines.join("\n")\<close>.\<close>

fun join_newline :: "jsstring list \<Rightarrow> jsstring" where
  "join_newline [] = []"
| "join_newline [l] = l"
| "join_newline (l # m # ls) = l @ LF # join_newline (m # ls)"

text \<open>\<open>s.trim()\<close> removes white space at both ends.\<close>

definition trim :: "jsstring \<Rightarrow> jsstring" where
  "trim s = rev (dropWhile isSpace (rev (dropWhile isSpace s)))"

subsection \<open>The region detector\<close>

record embeddedMQLRegion =
  startLine :: nat
  endLine :: nat

text \<open>
  \<open>line.match(/^(\s*)source:\s*[|>][-+]?\s*$/)\<close>, returning capture group 1.
  No character after a starred \<open>\s\<close> in the pattern is white space (\<open>s\<close>,
  \<open>|\<close>, \<open>>\<close>) and neither \<open>-\<close> nor \<open>+\<close> is, so each greedy \<open>\s*\<close>
  takes the whole run of white space and the optional modifier is taken when present:
  backtracking finds no other match.
\<close>

definition matchSourceHeader :: "jsstring \<Rightarrow> jsstring option" where
  "matchSourceHeader line =
     (let indent = takeWhile isSpace line;
          afterIndent = dropWhile isSpace line
      in if take 7 afterIndent \<noteq> js ''source:'' then None
         else
           (case dropWhile isSpace (drop 7 afterIndent) of
              [] \<Rightarrow> None
            | c # afterIndicator \<Rightarrow>
                if c \<noteq> of_char CHR ''|'' \<and> c \<noteq> of_char CHR ''>'' then None
                else
                  (let rest =
                     (case afterIndicator of
                        [] \<Rightarrow> []
                      | d # ds \<Rightarrow>
                          if d = of_char CHR ''-'' \<or> d = of_char CHR ''+'' then ds
                          else afterIndicator)
                   in if list_all isSpace rest then Some indent else None)))"

text \<open>\<open>contentLine.match(/^\s*/)?.[0].length ?? 0\<close>: the pattern always matches.\<close>

definition leadingSpaces :: "jsstring \<Rightarrow> nat" where
  "leadingSpaces contentLine = length (takeWhile isSpace contentLine)"

text \<open>
  The inner loop of \<open>detectMQLRegion\<close> (lines 66-85), from index \<open>j\<close> with the current
  value of the variable \<open>endLine\<close>; the result is \<open>endLine\<close> when the loop is left.
\<close>

function scanBlock :: "jsstring list \<Rightarrow> nat \<Rightarrow> nat \<Rightarrow> nat \<Rightarrow> nat" where
  "scanBlock lines contentIndent j endL =
     (if j < length lines then
        (if trim (lines ! j) = [] then scanBlock lines contentIndent (j + 1) j
         else if leadingSpaces (lines ! j) < contentIndent then endL
         else scanBlock lines contentIndent (j + 1) j)
      else endL)"
  by pat_completeness auto
termination
  by (relation "measure (\<lambda>(lines, contentIndent, j, endL). length lines - j)") auto

declare scanBlock.simps [simp del]

text \<open>The outer loop of \<open>detectMQLRegion\<close> (lines 45-94), from index \<open>i\<close>.\<close>

function detectFrom :: "jsstring list \<Rightarrow> nat \<Rightarrow> embeddedMQLRegion option" where
  "detectFrom lines i =
     (if i < length lines then
        (case matchSourceHeader (lines ! i) of
           None \<Rightarrow> detectFrom lines (i + 1)
         | Some indent \<Rightarrow>
             (let keyIndent = length indent;
                  contentIndent = keyIndent + 2;
                  startL = i + 1
              in if startL \<ge> length lines then None
                 else
                   (let endL = scanBlock lines contentIndent startL startL
                    in if endL \<ge> startL then Some \<lparr>startLine = startL, endLine = endL\<rparr>
                       else detectFrom lines (i + 1))))
      else None)"
  by pat_completeness auto
termination
  by (relation "measure (\<lambda>(lines, i). length lines - i)") auto

declare detectFrom.simps [simp del]

definition detectMQLRegion :: "jsstring \<Rightarrow> embeddedMQLRegion option" where
  "detectMQLRegion text = detectFrom (split_newline text) 0"

subsection \<open>The document masker\<close>

text \<open>
  The loop of \<open>maskDocument\<close> (lines 119-125). \<open>lineNum\<close> stays below the length of
  \<open>maskedLines\<close>, which is that of \<open>lines\<close>, so the assignment never extends the array.
\<close>

function restoreLines ::
  "jsstring list \<Rightarrow> embeddedMQLRegion \<Rightarrow> nat \<Rightarrow> jsstring list \<Rightarrow> jsstring list" where
  "restoreLines lines region lineNum maskedLines =
     (if lineNum \<le> endLine region \<and> lineNum < length lines then
        restoreLines lines region (lineNum + 1) (maskedLines[lineNum := lines ! lineNum])
      else maskedLines)"
  by pat_completeness auto
termination
  by (relation "measure (\<lambda>(lines, region, lineNum, maskedLines). length lines - lineNum)") auto

declare restoreLines.simps [simp del]

definition maskDocument :: "jsstring \<Rightarrow> embeddedMQLRegion option \<Rightarrow> jsstring" where
  "maskDocument text region =
     (case region of
        None \<Rightarrow> join_newline (map (\<lambda>_. []) (split_newline text))
      | Some r \<Rightarrow>
          (let lines = split_newline text;
               maskedLines = map (\<lambda>_. []) lines
           in join_newline (restoreLines lines r (startLine r) maskedLines)))"

subsection \<open>The editor's documents, positions and edits\<close>

text \<open>
  What the module reads of a \<open>vscode.TextDocument\<close>: its URI, language id, version,
  \<open>getText()\<close> and, through \<open>lineAt(n).text\<close>, the text of each of its lines.
  Nothing is assumed here about how the lines relate to the full text.
\<close>

type_synonym uri = string

record textDocument =
  uri :: uri
  languageId :: string
  version :: int
  getText :: jsstring
  lineTexts :: "jsstring list"

datatype error =
    TransportFailure  \<comment> \<open>an awaited \<open>sendNotification\<close> or \<open>next\<close> rejects\<close>
  | TypeError         \<comment> \<open>a property of \<open>undefined\<close> is read\<close>
  | IllegalLine       \<comment> \<open>\<open>lineAt\<close> is given a line the document does not have\<close>

text \<open>\<open>document.lineAt(n).text\<close>; the editor throws when \<open>n\<close> is not a line of the document.\<close>

definition lineAt :: "textDocument \<Rightarrow> int \<Rightarrow> error + jsstring" where
  "lineAt document n =
     (if 0 \<le> n \<and> nat n < length (lineTexts document)
      then Inr (lineTexts document ! nat n)
      else Inl IllegalLine)"

record position =
  line :: nat
  character :: nat

record vscodeRange =
  startPos :: position
  endPos :: position

record textEdit =
  editRange :: vscodeRange
  newText :: jsstring

text \<open>
  \<open>new vscode.Range(start, end)\<close>: the editor's constructor swaps its arguments when
  \<open>end\<close> is before \<open>start\<close>.
\<close>

definition isBefore :: "position \<Rightarrow> position \<Rightarrow> bool" where
  "isBefore a b \<longleftrightarrow> line a < line b \<or> (line a = line b \<and> character a < character b)"

definition newRange :: "position \<Rightarrow> position \<Rightarrow> vscodeRange" where
  "newRange a b =
     (if isBefore b a then \<lparr>startPos = b, endPos = a\<rparr> else \<lparr>startPos = a, endPos = b\<rparr>)"

subsection \<open>The module's state\<close>

record embeddedMQLDocumentCache =
  cacheVersion :: int
  region :: "embeddedMQLRegion option"
  maskedText :: jsstring

text \<open>
  The module-level variables: the cache map, the set of opened YAML documents and the
  language id given to \<open>setupEmbeddedMQL\<close>. The language client is the receiver of the
  notifications below; \<open>setupEmbeddedMQL\<close> runs before the client starts.
\<close>

record mqlState =
  documentCache :: "uri \<rightharpoonup> embeddedMQLDocumentCache"
  openedYAMLDocuments :: "uri set"
  languageID :: string

text \<open>What a handler passes on: a notification sent by hand, or the call of \<open>next\<close>.\<close>

datatype notification =
    SendDidOpen uri string int jsstring
      \<comment> \<open>\<open>client.sendNotification("textDocument/didOpen", {uri, languageId, version, text})\<close>\<close>
  | SendDidChange uri int jsstring
      \<comment> \<open>\<open>client.sendNotification("textDocument/didChange", ...)\<close> with the full text\<close>
  | NextDidOpen textDocument
  | NextDidChange textDocument
  | NextDidClose textDocument




definition setupEmbeddedMQL :: "mqlState \<Rightarrow> string \<Rightarrow> mqlState" where
  "setupEmbeddedMQL st mqlLanguageID = st\<lparr>languageID := mqlLanguageID\<rparr>"

definition cleanupEmbeddedMQL :: "mqlState \<Rightarrow> mqlState" where
  "cleanupEmbeddedMQL st = st\<lparr>documentCache := Map.empty, openedYAMLDocuments := {}\<rparr>"

definition getEmbeddedMQLCachedDocumentData ::
  "mqlState \<Rightarrow> textDocument \<Rightarrow> embeddedMQLDocumentCache \<times> mqlState" where
  "getEmbeddedMQLCachedDocumentData st document =
     (let fresh =
        (let text = getText document;
             reg = detectMQLRegion text;
             masked = maskDocument text reg;
             cache = \<lparr>cacheVersion = version document, region = reg, maskedText = masked\<rparr>
         in (cache, st\<lparr>documentCache := (documentCache st)(uri document \<mapsto> cache)\<rparr>))
      in case documentCache st (uri document) of
           None \<Rightarrow> fresh
         | Some cached \<Rightarrow>
             if cacheVersion cached = version document then (cached, st) else fresh)"

definition isInsideEmbeddedMQLRegion :: "position \<Rightarrow> embeddedMQLRegion option \<Rightarrow> bool" where
  "isInsideEmbeddedMQLRegion pos reg =
     (case reg of
        None \<Rightarrow> False
      | Some r \<Rightarrow> line pos \<ge> startLine r \<and> line pos \<le> endLine r)"

definition isInsideValidMQLRegion ::
  "mqlState \<Rightarrow> textDocument \<Rightarrow> position option \<Rightarrow> bool \<times> mqlState" where
  "isInsideValidMQLRegion st document pos =
     (if languageId document \<noteq> ''yaml'' then (True, st)
      else
        (let (cache, st') = getEmbeddedMQLCachedDocumentData st document
         in case pos of
              None \<Rightarrow> (region cache \<noteq> None, st')
            | Some p \<Rightarrow> (isInsideEmbeddedMQLRegion p (region cache), st')))"

subsection \<open>The middleware\<close>

text \<open>
  The handlers are \<open>async\<close> functions. Each one makes at most one call that it
  awaits (\<open>client.sendNotification\<close> or \<open>next\<close>), and the code after the
  \<open>await\<close> runs later, on the module state as it is then: other handlers may have
  run in between. A handler is therefore modelled in two steps: its code up to the
  \<open>await\<close>, which ends either with the handler's return or suspended at the call
  with the rest of the handler still to run, and that rest.
\<close>

datatype continuation =
    Finish
      \<comment> \<open>nothing follows the \<open>await\<close>\<close>
  | AddOpened uri
      \<comment> \<open>\<open>embeddedMQLOpenedYAMLDocuments.add(uri)\<close>\<close>
  | DeleteEntries uri
      \<comment> \<open>\<open>embeddedMQLOpenedYAMLDocuments.delete(uri); embeddedMQLDocumentCache.delete(uri)\<close>\<close>

datatype suspension =
    Returned
      \<comment> \<open>the handler returned without awaiting anything\<close>
  | Awaiting notification continuation
      \<comment> \<open>the call is made; the handler waits for it with this code left to run\<close>

text \<open>\<open>didOpen\<close> up to its \<open>await\<close> (lines 206-228).\<close>

definition didOpen_start :: "mqlState \<Rightarrow> textDocument \<Rightarrow> suspension \<times> mqlState" where
  "didOpen_start st document =
     (if languageId document \<noteq> ''yaml'' then (Awaiting (NextDidOpen document) Finish, st)
      else if uri document \<in> openedYAMLDocuments st then (Returned, st)
      else
        (let (cache, st') = getEmbeddedMQLCachedDocumentData st document
         in if region cache = None then (Returned, st')
            else
              (Awaiting
                 (SendDidOpen (uri document) (languageID st') (version document)
                    (maskedText cache))
                 (AddOpened (uri document)),
               st')))"

text \<open>
  \<open>didChange\<close> up to its \<open>await\<close> (lines 232-277). The handler reads only
  \<open>event.document\<close> of the change event.
\<close>

definition didChange_start :: "mqlState \<Rightarrow> textDocument \<Rightarrow> suspension \<times> mqlState" where
  "didChange_start st document =
     (if languageId document \<noteq> ''yaml'' then (Awaiting (NextDidChange document) Finish, st)
      else
        (let (cache, st') = getEmbeddedMQLCachedDocumentData st document
         in if region cache = None \<and> uri document \<notin> openedYAMLDocuments st'
            then (Returned, st')
            else if uri document \<notin> openedYAMLDocuments st' then
              (if region cache \<noteq> None then
                 (Awaiting
                    (SendDidOpen (uri document) (languageID st') (version document)
                       (maskedText cache))
                    (AddOpened (uri document)),
                  st')
               else (Returned, st'))
            else
              (Awaiting
                 (SendDidChange (uri document) (version document) (maskedText cache))
                 Finish,
               st')))"

text \<open>\<open>didClose\<close> up to its \<open>await\<close> (lines 279-289).\<close>

definition didClose_start :: "mqlState \<Rightarrow> textDocument \<Rightarrow> suspension \<times> mqlState" where
  "didClose_start st document =
     (if languageId document = ''yaml''
      then (Awaiting (NextDidClose document) (DeleteEntries (uri document)), st)
      else (Awaiting (NextDidClose document) Finish, st))"

text \<open>
  The rest of a suspended handler, on the state at the time the awaited call settles.
  \<open>resolved\<close> says whether the call resolves; when it rejects, the \<open>await\<close> throws
  and the rest of the handler does not run.
\<close>

definition resumeAfterAwait ::
  "mqlState \<Rightarrow> continuation \<Rightarrow> bool \<Rightarrow> (error + unit) \<times> mqlState" where
  "resumeAfterAwait st k resolved =
     (if \<not> resolved then (Inl TransportFailure, st)
      else
        (case k of
           Finish \<Rightarrow> (Inr (), st)
         | AddOpened u \<Rightarrow>
             (Inr (), st\<lparr>openedYAMLDocuments := insert u (openedYAMLDocuments st)\<rparr>)
         | DeleteEntries u \<Rightarrow>
             (Inr (),
              st\<lparr>openedYAMLDocuments := openedYAMLDocuments st - {u},
                 documentCache := (documentCache st)(u := None)\<rparr>)))"

text \<open>
  A handler run that nothing overlaps: the awaited call settles and the handler
  finishes before any other handler starts. The result is the handler's result, the
  notifications delivered (none when the call rejects) and the new state.
\<close>

fun runToCompletion ::
  "suspension \<times> mqlState \<Rightarrow> bool \<Rightarrow> (error + unit) \<times> notification list \<times> mqlState" where
  "runToCompletion (Returned, st) resolved = (Inr (), [], st)"
| "runToCompletion (Awaiting n k, st) resolved =
     (let (res, st') = resumeAfterAwait st k resolved
      in (res, if resolved then [n] else [], st'))"

definition didOpen ::
  "mqlState \<Rightarrow> textDocument \<Rightarrow> bool \<Rightarrow> (error + unit) \<times> notification list \<times> mqlState" where
  "didOpen st document resolved = runToCompletion (didOpen_start st document) resolved"

definition didChange ::
  "mqlState \<Rightarrow> textDocument \<Rightarrow> bool \<Rightarrow> (error + unit) \<times> notification list \<times> mqlState" where
  "didChange st document resolved = runToCompletion (didChange_start st document) resolved"

definition didClose ::
  "mqlState \<Rightarrow> textDocument \<Rightarrow> bool \<Rightarrow> (error + unit) \<times> notification list \<times> mqlState" where
  "didClose st document resolved = runToCompletion (didClose_start st document) resolved"

text \<open>
  \<open>provideDocumentFormattingEdits\<close> after its \<open>await next(document, options, token)\<close>
  (lines 300-337), on the state and document as they are when the response arrives;
  \<open>edits\<close> is the response (\<open>None\<close> for \<open>undefined\<close> or \<open>null\<close>).
\<close>

definition formattingEditsResponse ::
  "mqlState \<Rightarrow> textDocument \<Rightarrow> textEdit list option \<Rightarrow>
   (error + textEdit list option) \<times> mqlState" where
  "formattingEditsResponse st document edits =
     (case edits of
        None \<Rightarrow> (Inr edits, st)
      | Some es \<Rightarrow>
          if length es = 0 then (Inr edits, st)
          else if languageId document = ''yaml'' then
            (let (cache, st') = getEmbeddedMQLCachedDocumentData st document
             in if length es \<noteq> 1 then (Inr None, st')
                else
                  (let edit = es ! 0
                   in case region cache of
                        None \<Rightarrow> (Inl TypeError, st')
                      | Some r \<Rightarrow>
                          (case lineAt document (int (startLine r) - 1) of
                             Inl e \<Rightarrow> (Inl e, st')
                           | Inr sourceLine \<Rightarrow>
                               (let sourceIndent = takeWhile isSpace sourceLine;
                                    blockIndent = sourceIndent @ js ''  '';
                                    formattedLines = split_newline (newText edit);
                                    reindentedText =
                                      join_newline
                                        (map (\<lambda>l. if trim l = [] then [] else blockIndent @ l)
                                           formattedLines);
                                    startP = \<lparr>line = startLine r, character = 0\<rparr>
                                in case lineAt document (int (endLine r)) of
                                     Inl e \<Rightarrow> (Inl e, st')
                                   | Inr endLineText \<Rightarrow>
                                       (let endP = \<lparr>line = endLine r,
                                                    character = length endLineText\<rparr>;
                                            mqlRegionRange = newRange startP endP
                                        in (Inr (Some [\<lparr>editRange = mqlRegionRange,
                                                        newText = reindentedText\<rparr>]),
                                            st'))))))
          else (Inr edits, st))"

text \<open>
  The whole handler when nothing else runs while it awaits: \<open>response\<close> is what
  \<open>next\<close> gives, a rejection or the edits.
\<close>

definition provideDocumentFormattingEdits ::
  "mqlState \<Rightarrow> textDocument \<Rightarrow> (error + textEdit list option) \<Rightarrow>
   (error + textEdit list option) \<times> mqlState" where
  "provideDocumentFormattingEdits st document response =
     (let (inside, st') = isInsideValidMQLRegion st document None
      in if \<not> inside then (Inr None, st')
         else
           (case response of
              Inl e \<Rightarrow> (Inl e, st')
            | Inr edits \<Rightarrow> formattingEditsResponse st' document edits))"

subsection \<open>Notions used in the statements\<close>

text \<open>
  The lines the masker is specified to produce from the lines of the host text: a line
  inside the region as it is, every other line empty.
\<close>

definition maskedLinesOf :: "jsstring list \<Rightarrow> embeddedMQLRegion option \<Rightarrow> jsstring list" where
  "maskedLinesOf ls reg =
     map (\<lambda>i. case reg of None \<Rightarrow> []
               | Some r \<Rightarrow> if startLine r \<le> i \<and> i \<le> endLine r then ls ! i else [])
       [0..<length ls]"

text \<open>
  A line that the inner loop of the detector takes into the block: blank, or indented
  by at least \<open>contentIndent\<close>.
\<close>

definition inBlock :: "nat \<Rightarrow> jsstring \<Rightarrow> bool" where
  "inBlock contentIndent l \<longleftrightarrow> trim l = [] \<or> \<not> leadingSpaces l < contentIndent"

text \<open>
  The regular expression \<open>/^(\s*)source:\s*[|>][-+]?\s*$/\<close> read as a pattern: white
  space (the capture group), the key with its colon, white space, one indicator, at most
  one modifier, white space up to the end of the line.
\<close>

definition headerShape :: "jsstring \<Rightarrow> jsstring \<Rightarrow> bool" where
  "headerShape indent l \<longleftrightarrow>
     (\<exists>gap indicator modifier trailing.
        l = indent @ js ''source:'' @ gap @ [indicator] @ modifier @ trailing \<and>
        list_all isSpace indent \<and> list_all isSpace gap \<and> list_all isSpace trailing \<and>
        (indicator = of_char CHR ''|'' \<or> indicator = of_char CHR ''>'') \<and>
        (modifier = [] \<or> modifier = [of_char CHR ''-''] \<or> modifier = [of_char CHR ''+'']))"

text \<open>
  A result of the formatting handler that gives the editor nothing to apply and is not
  an error: \<open>undefined\<close> or an empty list of edits.
\<close>

fun carriesNoEdit :: "error + textEdit list option \<Rightarrow> bool" where
  "carriesNoEdit (Inl e) = False"
| "carriesNoEdit (Inr None) = True"
| "carriesNoEdit (Inr (Some es)) = (es = [])"

text \<open>
  The data model's invariant \<open>endLine \<ge> startLine\<close> for every cached region. It
  holds when the module is loaded or cleaned up and every handler keeps it.
\<close>

definition cacheWellFormed :: "mqlState \<Rightarrow> bool" where
  "cacheWellFormed st \<longleftrightarrow>
     (\<forall>u c r. documentCache st u = Some c \<longrightarrow> region c = Some r \<longrightarrow> startLine r \<le> endLine r)"

section \<open>Properties\<close>

subsection \<open>Splitting and joining lines\<close>

lemma split_newline_nonempty: "split_newline t \<noteq> []"
  by (induction t) (auto split: list.splits)

lemma split_newline_no_LF: "l \<in> set (split_newline t) \<Longrightarrow> LF \<notin> set l"
  by (induction t arbitrary: l) (auto split: list.splits if_splits)

lemma split_join_newline:
  "ls \<noteq> [] \<Longrightarrow> (\<forall>l \<in> set ls. LF \<notin> set l) \<Longrightarrow> split_newline (join_newline ls) = ls"
proof (induction ls rule: join_newline.induct)
  case 1
  then show ?case by simp
next
  case (2 l)
  then have "LF \<notin> set l" by simp
  then have "split_newline l = [l]"
    by (induction l) auto
  then show ?case by simp
next
  case (3 l m ls)
  then have IH: "split_newline (join_newline (m # ls)) = m # ls" by simp
  from 3 have "LF \<notin> set l" by simp
  then have "split_newline (l @ LF # join_newline (m # ls)) = l # split_newline (join_newline (m # ls))"
    by (induction l) auto
  with IH show ?case by simp
qed

lemma restoreLines_length:
  "length m = length ls \<Longrightarrow> length (restoreLines ls r j m) = length ls"
proof (induction ls r j m rule: restoreLines.induct)
  case (1 ls r j m)
  show ?case
  proof (cases "j \<le> endLine r \<and> j < length ls")
    case True
    with 1 show ?thesis by (subst restoreLines.simps) simp
  next
    case False
    with 1 show ?thesis by (subst restoreLines.simps) auto
  qed
qed

lemma restoreLines_nth:
  "length m = length ls \<Longrightarrow> i < length ls \<Longrightarrow>
   restoreLines ls r j m ! i = (if j \<le> i \<and> i \<le> endLine r then ls ! i else m ! i)"
proof (induction ls r j m rule: restoreLines.induct)
  case (1 ls r j m)
  show ?case
  proof (cases "j \<le> endLine r \<and> j < length ls")
    case True
    then have "restoreLines ls r j m ! i = restoreLines ls r (j + 1) (m[j := ls ! j]) ! i"
      by (subst restoreLines.simps) simp
    also have "\<dots> = (if j + 1 \<le> i \<and> i \<le> endLine r then ls ! i else m[j := ls ! j] ! i)"
      using 1 True by simp
    also have "\<dots> = (if j \<le> i \<and> i \<le> endLine r then ls ! i else m ! i)"
      using 1(2,3) True by (cases "i = j") auto
    finally show ?thesis .
  next
    case False
    then have "restoreLines ls r j m = m"
      by (subst restoreLines.simps) auto
    with False 1(3) show ?thesis by auto
  qed
qed

lemma maskDocument_lines:
  "split_newline (maskDocument t reg) = maskedLinesOf (split_newline t) reg"
proof -
  let ?ls = "split_newline t"
  have ne: "?ls \<noteq> []" by (rule split_newline_nonempty)
  show ?thesis
  proof (cases reg)
    case None
    have "split_newline (join_newline (map (\<lambda>_. []) ?ls)) = map (\<lambda>_. []) ?ls"
      using ne by (intro split_join_newline) auto
    moreover have "map (\<lambda>_. []) ?ls = maskedLinesOf ?ls None"
      by (rule nth_equalityI) (simp_all add: maskedLinesOf_def)
    ultimately show ?thesis using None by (simp add: maskDocument_def)
  next
    case (Some r)
    let ?m = "restoreLines ?ls r (startLine r) (map (\<lambda>_. []) ?ls)"
    have len: "length ?m = length ?ls" by (simp add: restoreLines_length)
    have nth: "\<And>i. i < length ?ls \<Longrightarrow>
        ?m ! i = (if startLine r \<le> i \<and> i \<le> endLine r then ?ls ! i else [])"
      by (simp add: restoreLines_nth)
    have eq: "?m = maskedLinesOf ?ls (Some r)"
      using len nth by (intro nth_equalityI) (simp_all add: maskedLinesOf_def)
    have "\<forall>l \<in> set ?m. LF \<notin> set l"
    proof
      fix l assume "l \<in> set ?m"
      then obtain i where i: "i < length ?ls" "l = ?m ! i"
        using len by (auto simp: in_set_conv_nth)
      then show "LF \<notin> set l"
        using nth[OF i(1)] split_newline_no_LF[of "?ls ! i" t] by (auto split: if_splits)
    qed
    moreover have "?m \<noteq> []" using len ne by auto
    ultimately have "split_newline (join_newline ?m) = ?m"
      by (intro split_join_newline)
    with eq Some show ?thesis by (simp add: maskDocument_def Let_def)
  qed
qed

lemma maskedLinesOf_length: "length (maskedLinesOf ls reg) = length ls"
  by (simp add: maskedLinesOf_def)

lemma maskedLinesOf_nth:
  "i < length ls \<Longrightarrow>
   maskedLinesOf ls reg ! i =
     (case reg of None \<Rightarrow> []
      | Some r \<Rightarrow> if startLine r \<le> i \<and> i \<le> endLine r then ls ! i else [])"
  by (cases reg) (simp_all add: maskedLinesOf_def)

lemma maskedLinesOf_idem: "maskedLinesOf (maskedLinesOf ls reg) reg = maskedLinesOf ls reg"
  by (rule nth_equalityI)
     (simp_all add: maskedLinesOf_length maskedLinesOf_nth split: option.splits)

lemma join_split_newline: "join_newline (split_newline t) = t"
proof (induction t)
  case Nil
  then show ?case by simp
next
  case (Cons c cs)
  obtain l ls where s: "split_newline cs = l # ls"
    using split_newline_nonempty[of cs] by (cases "split_newline cs") auto
  show ?case
  proof (cases "c = LF")
    case True
    with Cons s show ?thesis by simp
  next
    case False
    with Cons s show ?thesis by (cases ls) auto
  qed
qed

lemma maskDocument_idem_aux: "maskDocument (maskDocument t reg) reg = maskDocument t reg"
proof -
  have "split_newline (maskDocument (maskDocument t reg) reg) = split_newline (maskDocument t reg)"
    by (simp add: maskDocument_lines maskedLinesOf_idem)
  then have "join_newline (split_newline (maskDocument (maskDocument t reg) reg))
             = join_newline (split_newline (maskDocument t reg))" by simp
  then show ?thesis by (simp only: join_split_newline)
qed

subsection \<open>The header pattern\<close>

text \<open>
  The matcher accepts exactly the lines of the pattern's shape and returns the capture
  group: the decomposition of a matching line is unique.
\<close>

lemma js_source: "js ''source:'' = [0x73, 0x6F, 0x75, 0x72, 0x63, 0x65, 0x3A]"
  by code_simp

lemma not_space_marks:
  "\<not> isSpace (0x73 :: jschar)"
  "\<not> isSpace (of_char CHR ''|'' :: jschar)" "\<not> isSpace (of_char CHR ''>'' :: jschar)"
  "\<not> isSpace (of_char CHR ''-'' :: jschar)" "\<not> isSpace (of_char CHR ''+'' :: jschar)"
  by code_simp+

lemma takeWhile_spaces_then:
  "list_all isSpace ws \<Longrightarrow> \<not> isSpace c \<Longrightarrow> takeWhile isSpace (ws @ c # r) = ws"
  by (induction ws) auto

lemma dropWhile_spaces_then:
  "list_all isSpace ws \<Longrightarrow> \<not> isSpace c \<Longrightarrow> dropWhile isSpace (ws @ c # r) = c # r"
  by (induction ws) auto

lemma matchSourceHeader_complete:
  assumes "headerShape indent l"
  shows "matchSourceHeader l = Some indent"
proof -
  from assms obtain gap indicator modifier trailing where
    l: "l = indent @ js ''source:'' @ gap @ [indicator] @ modifier @ trailing"
    and sp: "list_all isSpace indent" "list_all isSpace gap" "list_all isSpace trailing"
    and ind: "indicator = of_char CHR ''|'' \<or> indicator = of_char CHR ''>''"
    and md: "modifier = [] \<or> modifier = [of_char CHR ''-''] \<or> modifier = [of_char CHR ''+'']"
    by (auto simp: headerShape_def)
  let ?tail = "gap @ indicator # modifier @ trailing"
  have l': "l = indent @ 0x73 # [0x6F, 0x75, 0x72, 0x63, 0x65, 0x3A] @ ?tail"
    by (simp add: l js_source)
  have t: "takeWhile isSpace l = indent"
    unfolding l' by (rule takeWhile_spaces_then[OF sp(1) not_space_marks(1)])
  have d: "dropWhile isSpace l = js ''source:'' @ ?tail"
    unfolding l' js_source using dropWhile_spaces_then[OF sp(1) not_space_marks(1)] by simp
  have t7: "take 7 (dropWhile isSpace l) = js ''source:''"
    and d7: "drop 7 (dropWhile isSpace l) = ?tail"
    unfolding d by (simp_all add: js_source)
  have nsi: "\<not> isSpace indicator" using ind not_space_marks by auto
  have g: "dropWhile isSpace ?tail = indicator # modifier @ trailing"
    by (rule dropWhile_spaces_then[OF sp(2) nsi])
  have rest: "(case modifier @ trailing of [] \<Rightarrow> []
               | d # ds \<Rightarrow> if d = of_char CHR ''-'' \<or> d = of_char CHR ''+'' then ds
                           else modifier @ trailing) = trailing"
  proof (cases "modifier = []")
    case True
    show ?thesis
    proof (cases trailing)
      case Nil
      with True show ?thesis by simp
    next
      case (Cons d ds)
      with sp(3) have "isSpace d" by simp
      with not_space_marks have "d \<noteq> of_char CHR ''-''" "d \<noteq> of_char CHR ''+''" by auto
      with True Cons show ?thesis by simp
    qed
  next
    case False
    with md show ?thesis by auto
  qed
  show ?thesis
    unfolding matchSourceHeader_def Let_def t t7 d7 g
    using ind sp(3) rest by auto
qed

lemma matchSourceHeader_sound:
  assumes m: "matchSourceHeader l = Some indent"
  shows "headerShape indent l"
proof -
  define a where "a = dropWhile isSpace l"
  define b where "b = dropWhile isSpace (drop 7 a)"
  have t7: "take 7 a = js ''source:''"
  proof (rule ccontr)
    assume "take 7 a \<noteq> js ''source:''"
    then have "matchSourceHeader l = None"
      by (simp add: matchSourceHeader_def Let_def a_def)
    with m show False by simp
  qed
  have unfolded: "matchSourceHeader l =
      (case b of
         [] \<Rightarrow> None
       | c # afterIndicator \<Rightarrow>
           if c \<noteq> of_char CHR ''|'' \<and> c \<noteq> of_char CHR ''>'' then None
           else if list_all isSpace
                     (case afterIndicator of
                        [] \<Rightarrow> []
                      | d # ds \<Rightarrow>
                          if d = of_char CHR ''-'' \<or> d = of_char CHR ''+'' then ds
                          else afterIndicator)
                then Some (takeWhile isSpace l) else None)"
    using t7 unfolding matchSourceHeader_def Let_def a_def b_def by simp
  obtain c afterIndicator where b: "b = c # afterIndicator"
    using m unfolded by (cases b) simp_all
  have c: "c = of_char CHR ''|'' \<or> c = of_char CHR ''>''"
  proof (rule ccontr)
    assume "\<not> ?thesis"
    then have "matchSourceHeader l = None" unfolding unfolded b by simp
    with m show False by simp
  qed
  define rest where "rest =
     (case afterIndicator of
        [] \<Rightarrow> []
      | d # ds \<Rightarrow> if d = of_char CHR ''-'' \<or> d = of_char CHR ''+'' then ds else afterIndicator)"
  have u2: "matchSourceHeader l = (if list_all isSpace rest then Some (takeWhile isSpace l) else None)"
    unfolding unfolded b rest_def using c by auto
  have rest: "list_all isSpace rest"
  proof (rule ccontr)
    assume "\<not> ?thesis"
    with u2 m show False by simp
  qed
  with u2 m have ind: "indent = takeWhile isSpace l" by simp
  obtain modifier trailing where mt: "afterIndicator = modifier @ trailing"
    "list_all isSpace trailing"
    "modifier = [] \<or> modifier = [of_char CHR ''-''] \<or> modifier = [of_char CHR ''+'']"
  proof (cases afterIndicator)
    case Nil
    then show ?thesis using that[of "[]" "[]"] by simp
  next
    case (Cons d ds)
    show ?thesis
    proof (cases "d = of_char CHR ''-'' \<or> d = of_char CHR ''+''")
      case True
      with Cons rest have "list_all isSpace ds" by (simp add: rest_def)
      with True Cons show ?thesis using that[of "[d]" ds] by auto
    next
      case False
      with Cons rest have "list_all isSpace afterIndicator" by (simp add: rest_def)
      then show ?thesis using that[of "[]" afterIndicator] by simp
    qed
  qed
  have "l = takeWhile isSpace l @ a" by (simp add: a_def)
  moreover have "a = take 7 a @ drop 7 a" by simp
  moreover have "drop 7 a = takeWhile isSpace (drop 7 a) @ b" by (simp add: b_def)
  ultimately have "l = indent @ js ''source:'' @ takeWhile isSpace (drop 7 a) @ [c] @ modifier @ trailing"
    using ind t7 b mt(1) by (metis append_Cons append_Nil)
  moreover have "list_all isSpace indent" "list_all isSpace (takeWhile isSpace (drop 7 a))"
    unfolding ind by (auto simp: list_all_iff dest: set_takeWhileD)
  ultimately show ?thesis
    unfolding headerShape_def using c mt(2,3) by blast
qed

lemma matchSourceHeader_iff: "matchSourceHeader l = Some indent \<longleftrightarrow> headerShape indent l"
  using matchSourceHeader_sound matchSourceHeader_complete by blast

subsection \<open>The detector's loops\<close>

lemma trim_empty_iff: "trim s = [] \<longleftrightarrow> list_all isSpace s"
proof
  assume "trim s = []"
  then have d: "\<forall>x \<in> set (dropWhile isSpace s). isSpace x"
    by (simp add: trim_def dropWhile_eq_Nil_conv)
  have "dropWhile isSpace s = []"
  proof (rule ccontr)
    assume ne: "dropWhile isSpace s \<noteq> []"
    then have "\<not> isSpace (hd (dropWhile isSpace s))" by (rule hd_dropWhile)
    moreover have "hd (dropWhile isSpace s) \<in> set (dropWhile isSpace s)"
      using ne by simp
    ultimately show False using d by blast
  qed
  then show "list_all isSpace s" by (simp add: dropWhile_eq_Nil_conv list_all_iff)
next
  assume "list_all isSpace s"
  then have "dropWhile isSpace s = []"
    by (simp add: dropWhile_eq_Nil_conv list_all_iff)
  then show "trim s = []" by (simp only: trim_def rev.simps dropWhile.simps)
qed

lemma scanBlock_range:
  "scanBlock ls k j e = e \<or> (j \<le> scanBlock ls k j e \<and> scanBlock ls k j e < length ls)"
proof (induction ls k j e rule: scanBlock.induct)
  case (1 ls k j e)
  show ?case
  proof (cases "j < length ls")
    case False
    then show ?thesis by (subst scanBlock.simps) simp
  next
    case True
    show ?thesis
    proof (cases "inBlock k (ls ! j)")
      case False
      with True show ?thesis by (subst scanBlock.simps) (auto simp: inBlock_def)
    next
      case inb: True
      then have eq: "scanBlock ls k j e = scanBlock ls k (j + 1) j"
        using True by (subst scanBlock.simps) (auto simp: inBlock_def)
      have "scanBlock ls k (j + 1) j = j \<or>
            (j + 1 \<le> scanBlock ls k (j + 1) j \<and> scanBlock ls k (j + 1) j < length ls)"
        using inb True 1 by (auto simp: inBlock_def)
      with True eq show ?thesis by auto
    qed
  qed
qed

lemma scanBlock_takeWhile:
  "j \<le> length ls \<Longrightarrow>
   scanBlock ls k j e =
     (if takeWhile (inBlock k) (drop j ls) = [] then e
      else j + length (takeWhile (inBlock k) (drop j ls)) - 1)"
proof (induction ls k j e rule: scanBlock.induct)
  case (1 ls k j e)
  show ?case
  proof (cases "j < length ls")
    case False
    then show ?thesis by (subst scanBlock.simps) simp
  next
    case True
    then have d: "drop j ls = ls ! j # drop (j + 1) ls"
      by (simp add: Cons_nth_drop_Suc)
    show ?thesis
    proof (cases "inBlock k (ls ! j)")
      case False
      with True d show ?thesis by (subst scanBlock.simps) (auto simp: inBlock_def)
    next
      case inb: True
      then have eq: "scanBlock ls k j e = scanBlock ls k (j + 1) j"
        using True by (subst scanBlock.simps) (auto simp: inBlock_def)
      have "scanBlock ls k (j + 1) j =
              (if takeWhile (inBlock k) (drop (j + 1) ls) = [] then j
               else j + 1 + length (takeWhile (inBlock k) (drop (j + 1) ls)) - 1)"
      proof (cases "trim (ls ! j) = []")
        case blank: True
        show ?thesis using 1(1)[OF True blank] True by simp
      next
        case nonblank: False
        then have "\<not> leadingSpaces (ls ! j) < k" using inb by (simp add: inBlock_def)
        from 1(2)[OF True nonblank this] True show ?thesis by simp
      qed
      with eq d inb show ?thesis by simp
    qed
  qed
qed

lemma detectFrom_bounds:
  "detectFrom ls i = Some r \<Longrightarrow>
   i + 1 \<le> startLine r \<and> startLine r \<le> endLine r \<and> endLine r < length ls \<and>
   matchSourceHeader (ls ! (startLine r - 1)) \<noteq> None"
proof (induction ls i rule: detectFrom.induct)
  case (1 ls i)
  show ?case
  proof (cases "i < length ls")
    case False
    with 1(3) show ?thesis by (subst (asm) detectFrom.simps) simp
  next
    case True
    show ?thesis
    proof (cases "matchSourceHeader (ls ! i)")
      case None
      with True 1(3) have "detectFrom ls (i + 1) = Some r"
        by (subst (asm) detectFrom.simps) simp
      with 1(1)[OF True None] show ?thesis by simp
    next
      case (Some ind)
      let ?e = "scanBlock ls (length ind + 2) (i + 1) (i + 1)"
      have ge: "i + 1 \<le> ?e" and lt: "i + 1 < length ls \<Longrightarrow> ?e < length ls"
        using scanBlock_range[of ls "length ind + 2" "i + 1" "i + 1"] by auto
      from True Some 1(3) ge have "i + 1 < length ls \<and> r = \<lparr>startLine = i + 1, endLine = ?e\<rparr>"
        by (subst (asm) detectFrom.simps) (auto simp: Let_def split: if_splits)
      with ge lt Some show ?thesis by auto
    qed
  qed
qed

lemma detectFrom_skip:
  "\<forall>l \<in> set pre. matchSourceHeader l = None \<Longrightarrow>
   detectFrom (pre @ ls) 0 = detectFrom (pre @ ls) (length pre)"
proof -
  have "i \<le> length pre \<Longrightarrow> \<forall>l \<in> set pre. matchSourceHeader l = None \<Longrightarrow>
        detectFrom (pre @ ls) (length pre - i) = detectFrom (pre @ ls) (length pre)" for i
  proof (induction i)
    case 0
    then show ?case by simp
  next
    case (Suc i)
    then have lt: "length pre - Suc i < length pre" by simp
    then have "matchSourceHeader ((pre @ ls) ! (length pre - Suc i)) = None"
      using Suc.prems(2) by (simp add: nth_append)
    then have "detectFrom (pre @ ls) (length pre - Suc i)
               = detectFrom (pre @ ls) (length pre - Suc i + 1)"
      using lt by (subst detectFrom.simps) simp
    moreover have "length pre - Suc i + 1 = length pre - i" using Suc.prems(1) by simp
    ultimately show ?case using Suc by simp
  qed
  from this[of "length pre"] show "\<forall>l \<in> set pre. matchSourceHeader l = None \<Longrightarrow>
   detectFrom (pre @ ls) 0 = detectFrom (pre @ ls) (length pre)" by simp
qed

lemma detectFrom_header:
  assumes pre: "\<forall>l \<in> set pre. matchSourceHeader l = None"
    and hdr: "matchSourceHeader header = Some ind"
  shows "detectFrom (pre @ header # body) 0 =
           (if body = [] then None
            else Some \<lparr>startLine = length pre + 1,
                       endLine = length pre + max 1 (length (takeWhile (inBlock (length ind + 2)) body))\<rparr>)"
proof -
  let ?ls = "pre @ header # body"
  let ?s = "length pre + 1"
  have nth: "?ls ! length pre = header" by simp
  have dr: "drop ?s ?ls = body" by simp
  have sb: "scanBlock ?ls (length ind + 2) ?s ?s =
        (if takeWhile (inBlock (length ind + 2)) body = [] then ?s
         else ?s + length (takeWhile (inBlock (length ind + 2)) body) - 1)"
    using scanBlock_takeWhile[of ?s ?ls "length ind + 2" ?s] dr by simp
  have "detectFrom ?ls (length pre) =
        (if body = [] then None
         else Some \<lparr>startLine = ?s, endLine = scanBlock ?ls (length ind + 2) ?s ?s\<rparr>)"
    using scanBlock_range[of ?ls "length ind + 2" ?s ?s] hdr
    by (subst detectFrom.simps) (auto simp: Let_def nth)
  moreover have "scanBlock ?ls (length ind + 2) ?s ?s =
      length pre + max 1 (length (takeWhile (inBlock (length ind + 2)) body))"
    unfolding sb by (cases "takeWhile (inBlock (length ind + 2)) body") auto
  ultimately show ?thesis using detectFrom_skip[OF pre, of "header # body"] by simp
qed

subsection \<open>Claims about the detector and the masker\<close>

text \<open>
  Claim C2. On the host text \<open>"name: x\nsource: |\n  a\n  b\nother: y\n"\<close> the region
  detector returns the region with \<open>startLine = 2\<close> and \<open>endLine = 3\<close>, and the masker
  applied to that text and region returns exactly \<open>"\n\n  a\n  b\n\n"\<close>.
\<close>
theorem scenario_detect_and_mask:
  "detectMQLRegion (js ''name: x\<newline>source: |\<newline>  a\<newline>  b\<newline>other: y\<newline>'')
     = Some \<lparr>startLine = 2, endLine = 3\<rparr> \<and>
   maskDocument (js ''name: x\<newline>source: |\<newline>  a\<newline>  b\<newline>other: y\<newline>'')
       (Some \<lparr>startLine = 2, endLine = 3\<rparr>)
     = js ''\<newline>\<newline>  a\<newline>  b\<newline>\<newline>''"
  by code_simp

text \<open>
  Claim C3. For every host text and every optional region the masked text splits into
  as many lines as the host text; with a region, each line whose index lies in
  \<open>[startLine, endLine]\<close> is the host line and every other line is empty; without a
  region every line is empty.
\<close>
theorem maskDocument_line_geometry:
  "length (split_newline (maskDocument text reg)) = length (split_newline text) \<and>
   (\<forall>i < length (split_newline text).
      split_newline (maskDocument text reg) ! i =
        (case reg of
           None \<Rightarrow> []
         | Some r \<Rightarrow>
             if startLine r \<le> i \<and> i \<le> endLine r then split_newline text ! i else []))"
  by (simp add: maskDocument_lines maskedLinesOf_length maskedLinesOf_nth)

theorem maskDocument_line_geometry_witness:
  "(2::nat) < length (split_newline (js ''k: v\<newline>source: |\<newline>  a\<newline>z: 1'')) \<and>
   length (split_newline (maskDocument (js ''k: v\<newline>source: |\<newline>  a\<newline>z: 1'')
             (Some \<lparr>startLine = 2, endLine = 2\<rparr>))) = 4 \<and>
   split_newline (maskDocument (js ''k: v\<newline>source: |\<newline>  a\<newline>z: 1'')
             (Some \<lparr>startLine = 2, endLine = 2\<rparr>)) ! 2 = js ''  a''"
proof -
  have s: "split_newline (js ''k: v\<newline>source: |\<newline>  a\<newline>z: 1'')
           = [js ''k: v'', js ''source: |'', js ''  a'', js ''z: 1'']"
    by code_simp
  show ?thesis
    using maskDocument_line_geometry
            [of "js ''k: v\<newline>source: |\<newline>  a\<newline>z: 1''" "Some \<lparr>startLine = 2, endLine = 2\<rparr>"]
    by (simp add: s)
qed

text \<open>
  Claim C9. Masking is idempotent: masking a masked text again with the same (optional)
  region gives the masked text back.
\<close>
theorem maskDocument_idempotent:
  "maskDocument (maskDocument text reg) reg = maskDocument text reg"
  by (rule maskDocument_idem_aux)

theorem maskDocument_idempotent_witness:
  "maskDocument (js ''\<newline>\<newline>  a\<newline>'') (Some \<lparr>startLine = 2, endLine = 2\<rparr>) = js ''\<newline>\<newline>  a\<newline>''"
proof -
  have m: "maskDocument (js ''k: v\<newline>source: |\<newline>  a\<newline>z: 1'') (Some \<lparr>startLine = 2, endLine = 2\<rparr>)
           = js ''\<newline>\<newline>  a\<newline>''"
    by code_simp
  show ?thesis
    using maskDocument_idempotent
            [of "js ''k: v\<newline>source: |\<newline>  a\<newline>z: 1''" "Some \<lparr>startLine = 2, endLine = 2\<rparr>"]
    by (simp only: m)
qed

text \<open>
  Claim C10. A region returned by the detector on a text of \<open>n\<close> lines has
  \<open>1 \<le> startLine \<le> endLine \<le> n - 1\<close>; the line at index \<open>startLine - 1\<close> exists and
  is the block header that was matched.
\<close>
theorem detected_region_bounds:
  assumes "detectMQLRegion text = Some r"
  shows "1 \<le> startLine r \<and> startLine r \<le> endLine r \<and>
         int (endLine r) \<le> int (length (split_newline text)) - 1 \<and>
         startLine r - 1 < length (split_newline text) \<and>
         matchSourceHeader (split_newline text ! (startLine r - 1)) \<noteq> None"
  using detectFrom_bounds[of "split_newline text" 0 r] assms
  by (auto simp: detectMQLRegion_def)

theorem detected_region_bounds_witness:
  "detectMQLRegion (js ''k: v\<newline>source: |\<newline>  a\<newline>z: 1'') = Some \<lparr>startLine = 2, endLine = 2\<rparr> \<and>
   (1::nat) \<le> 2 \<and> int 2 \<le> int (length (split_newline (js ''k: v\<newline>source: |\<newline>  a\<newline>z: 1''))) - 1"
proof -
  have d: "detectMQLRegion (js ''k: v\<newline>source: |\<newline>  a\<newline>z: 1'') = Some \<lparr>startLine = 2, endLine = 2\<rparr>"
    by code_simp
  from detected_region_bounds[OF d] d show ?thesis by simp
qed

text \<open>
  Claim C5, evaluated on \<open>"source: |\nother: y"\<close>: the line after the header is not
  blank and is indented by less than \<open>contentIndent = 2\<close>, so the scan takes no line;
  the detector nevertheless returns the region \<open>{startLine: 1, endLine: 1}\<close>. The
  variable \<open>endLine\<close> starts at \<open>startLine\<close>, so the test \<open>endLine >= startLine\<close>
  that guards "return the region if it has content" cannot fail.
\<close>
theorem region_without_content_line:
  "matchSourceHeader (js ''source: |'') = Some [] \<and>
   trim (js ''other: y'') \<noteq> [] \<and>
   leadingSpaces (js ''other: y'') < 2 \<and>
   detectMQLRegion (js ''source: |\<newline>other: y'') = Some \<lparr>startLine = 1, endLine = 1\<rparr>"
  by code_simp

text \<open>
  When the first header is the last line of the text, there is no region.
\<close>
lemma header_on_last_line:
  assumes "split_newline text = pre @ [header]"
    and "\<forall>l \<in> set pre. matchSourceHeader l = None"
    and "matchSourceHeader header = Some ind"
  shows "detectMQLRegion text = None"
  using detectFrom_header[OF assms(2,3), of "[]"] assms(1)
  by (simp add: detectMQLRegion_def)

text \<open>
  Claim C6 as stated fails: in \<open>"source: |\n  a\n\nother: y"\<close> the content line
  \<open>"  a"\<close> (index 1) is followed by a blank line (index 2) and a less indented line,
  and the returned \<open>endLine\<close> is 2, the blank line, not 1.
\<close>
theorem trailing_blank_excluded_counterexample:
  "detectMQLRegion (js ''source: |\<newline>  a\<newline>\<newline>other: y'') = Some \<lparr>startLine = 1, endLine = 2\<rparr> \<and>
   split_newline (js ''source: |\<newline>  a\<newline>\<newline>other: y'')
     = [js ''source: |'', js ''  a'', [], js ''other: y''] \<and>
   trim (js ''other: y'') \<noteq> [] \<and> leadingSpaces (js ''other: y'') < 2"
  by code_simp

text \<open>
  Claim C6, amended. When the lines taken into the block are followed by one or more
  blank lines and then either a non-blank line indented by less than \<open>contentIndent\<close>
  or the end of the text, the returned \<open>endLine\<close> is the index of the last of those
  blank lines: trailing blank lines belong to the region in both cases.
\<close>
theorem trailing_blank_lines_included:
  assumes lines: "split_newline text = pre @ header # content @ blanks @ rest"
    and pre: "\<forall>l \<in> set pre. matchSourceHeader l = None"
    and hdr: "matchSourceHeader header = Some ind"
    and content: "\<forall>l \<in> set content. trim l = [] \<or> length ind + 2 \<le> leadingSpaces l"
    and blanks: "blanks \<noteq> []" "\<forall>l \<in> set blanks. trim l = []"
    and rest: "rest = [] \<or> (trim (hd rest) \<noteq> [] \<and> leadingSpaces (hd rest) < length ind + 2)"
  shows "detectMQLRegion text =
           Some \<lparr>startLine = length pre + 1,
                 endLine = length pre + length content + length blanks\<rparr>"
proof -
  let ?k = "length ind + 2"
  have all: "\<forall>l \<in> set (content @ blanks). inBlock ?k l"
    using content blanks(2) by (auto simp: inBlock_def)
  have stop: "takeWhile (inBlock ?k) rest = []"
    using rest by (cases rest) (auto simp: inBlock_def)
  have "takeWhile (inBlock ?k) ((content @ blanks) @ rest) = (content @ blanks) @ takeWhile (inBlock ?k) rest"
    using all by (intro takeWhile_append2) blast
  then have tw: "takeWhile (inBlock ?k) (content @ blanks @ rest) = content @ blanks"
    using stop by simp
  have ne: "content @ blanks @ rest \<noteq> []" using blanks(1) by simp
  have "max 1 (length (content @ blanks)) = length content + length blanks"
    using blanks(1) by (cases blanks) auto
  then show ?thesis
    using detectFrom_header[OF pre hdr, of "content @ blanks @ rest"] lines ne tw
    by (simp add: detectMQLRegion_def)
qed

theorem trailing_blank_lines_included_witness:
  "detectMQLRegion (js ''k: v\<newline>source: |\<newline>  a\<newline>\<newline>other: y'')
     = Some \<lparr>startLine = 2, endLine = 3\<rparr>"
proof -
  have s: "split_newline (js ''k: v\<newline>source: |\<newline>  a\<newline>\<newline>other: y'')
           = [js ''k: v''] @ js ''source: |'' # [js ''  a''] @ [[]] @ [js ''other: y'']"
    by code_simp
  have p: "\<forall>l \<in> set [js ''k: v'']. matchSourceHeader l = None" by code_simp
  have h: "matchSourceHeader (js ''source: |'') = Some []" by code_simp
  have c: "\<forall>l \<in> set [js ''  a'']. trim l = [] \<or> length ([]::jsstring) + 2 \<le> leadingSpaces l"
    by code_simp
  have b: "[[]] \<noteq> ([]::jsstring list)" "\<forall>l \<in> set [[]]. trim l = []" by code_simp+
  have r: "[js ''other: y''] = [] \<or>
           (trim (hd [js ''other: y'']) \<noteq> [] \<and> leadingSpaces (hd [js ''other: y'']) < length ([]::jsstring) + 2)"
    by code_simp
  from trailing_blank_lines_included[OF s p h c b r] show ?thesis by simp
qed

subsection \<open>The document cache\<close>

lemma getCached_entry:
  assumes "getEmbeddedMQLCachedDocumentData st d = (c, st')"
  shows "documentCache st' (uri d) = Some c" "cacheVersion c = version d"
    "openedYAMLDocuments st' = openedYAMLDocuments st" "languageID st' = languageID st"
    "\<And>u. u \<noteq> uri d \<Longrightarrow> documentCache st' u = documentCache st u"
  using assms
  by (auto simp: getEmbeddedMQLCachedDocumentData_def Let_def split: option.splits if_splits)


lemma getCached_again:
  assumes "getEmbeddedMQLCachedDocumentData st d = (c, st')"
  shows "getEmbeddedMQLCachedDocumentData st' d = (c, st')"
  using getCached_entry(1,2)[OF assms]
  by (simp add: getEmbeddedMQLCachedDocumentData_def Let_def)

lemma getCached_region_cases:
  assumes "getEmbeddedMQLCachedDocumentData st d = (c, st')"
  shows "documentCache st (uri d) = Some c \<or> region c = detectMQLRegion (getText d)"
  using assms
  by (auto simp: getEmbeddedMQLCachedDocumentData_def Let_def split: option.splits if_splits)

lemma detect_ordered: "detectMQLRegion t = Some r \<Longrightarrow> startLine r \<le> endLine r"
  using detectFrom_bounds[of "split_newline t" 0 r] by (simp add: detectMQLRegion_def)

lemma getCached_wellFormed:
  assumes wf: "cacheWellFormed st" and g: "getEmbeddedMQLCachedDocumentData st d = (c, st')"
  shows "cacheWellFormed st'" "region c = Some r \<Longrightarrow> startLine r \<le> endLine r"
proof -
  show r: "startLine r \<le> endLine r" if "region c = Some r" for r
    using getCached_region_cases[OF g] that wf detect_ordered
    by (auto simp: cacheWellFormed_def)
  show "cacheWellFormed st'"
    unfolding cacheWellFormed_def
  proof (intro allI impI)
    fix u c' r' assume a: "documentCache st' u = Some c'" "region c' = Some r'"
    show "startLine r' \<le> endLine r'"
    proof (cases "u = uri d")
      case True
      with a getCached_entry(1)[OF g] have "c' = c" by simp
      with a r show ?thesis by simp
    next
      case False
      with a getCached_entry(5)[OF g] wf show ?thesis
        by (auto simp: cacheWellFormed_def)
    qed
  qed
qed

lemma cacheWellFormed_opened [simp]:
  "cacheWellFormed (st\<lparr>openedYAMLDocuments := s\<rparr>) = cacheWellFormed st"
  by (simp add: cacheWellFormed_def)

lemma didOpen_start_wellFormed:
  "cacheWellFormed st \<Longrightarrow> cacheWellFormed (snd (didOpen_start st d))"
  by (cases "getEmbeddedMQLCachedDocumentData st d")
     (auto simp: didOpen_start_def dest: getCached_wellFormed(1))

lemma didChange_start_wellFormed:
  "cacheWellFormed st \<Longrightarrow> cacheWellFormed (snd (didChange_start st d))"
  by (cases "getEmbeddedMQLCachedDocumentData st d")
     (auto simp: didChange_start_def dest: getCached_wellFormed(1))

lemma didClose_start_wellFormed:
  "cacheWellFormed st \<Longrightarrow> cacheWellFormed (snd (didClose_start st d))"
  by (simp add: didClose_start_def)

lemma resumeAfterAwait_wellFormed:
  "cacheWellFormed st \<Longrightarrow> cacheWellFormed (snd (resumeAfterAwait st k ok))"
  by (cases k) (auto simp: resumeAfterAwait_def cacheWellFormed_def)

lemma runToCompletion_wellFormed:
  "cacheWellFormed (snd p) \<Longrightarrow> cacheWellFormed (snd (snd (runToCompletion p ok)))"
proof (cases p)
  case (Pair susp st)
  assume "cacheWellFormed (snd p)"
  with Pair have wf: "cacheWellFormed st" by simp
  show ?thesis
  proof (cases susp)
    case Returned
    with Pair wf show ?thesis by simp
  next
    case (Awaiting n k)
    with Pair resumeAfterAwait_wellFormed[OF wf, of k ok] show ?thesis
      by (cases ok) (simp_all add: case_prod_unfold Let_def)
  qed
qed

lemma didOpen_wellFormed:
  "cacheWellFormed st \<Longrightarrow> cacheWellFormed (snd (snd (didOpen st d ok)))"
  unfolding didOpen_def by (intro runToCompletion_wellFormed didOpen_start_wellFormed)

lemma didChange_wellFormed:
  "cacheWellFormed st \<Longrightarrow> cacheWellFormed (snd (snd (didChange st d ok)))"
  unfolding didChange_def by (intro runToCompletion_wellFormed didChange_start_wellFormed)

lemma didClose_wellFormed:
  "cacheWellFormed st \<Longrightarrow> cacheWellFormed (snd (snd (didClose st d ok)))"
  unfolding didClose_def by (intro runToCompletion_wellFormed didClose_start_wellFormed)

lemma formattingEditsResponse_wellFormed:
  "cacheWellFormed st \<Longrightarrow> cacheWellFormed (snd (formattingEditsResponse st d edits))"
  by (cases "getEmbeddedMQLCachedDocumentData st d")
     (auto simp: formattingEditsResponse_def Let_def dest: getCached_wellFormed(1)
           split: option.splits sum.splits)

lemma cleanup_wellFormed: "cacheWellFormed (cleanupEmbeddedMQL st)"
  by (simp add: cleanupEmbeddedMQL_def cacheWellFormed_def)

subsection \<open>The lifecycle handlers\<close>








subsection \<open>The formatting response\<close>

text \<open>
  Claim C7. A YAML document has a cached region \<open>r\<close>, the line before the region (the
  block header) has the white-space prefix of two spaces, and the service answers with
  exactly one edit whose new text is \<open>"a\nb"\<close>. Then the handler returns a single edit
  with new text \<open>"    a\n    b"\<close> and the range from \<open>(startLine r, 0)\<close> to the end
  of line \<open>endLine r\<close> of the host document.
\<close>

theorem formatting_single_edit_reindented:
  assumes yaml: "languageId doc = ''yaml''"
    and wf: "cacheWellFormed st"
    and reg: "region (fst (getEmbeddedMQLCachedDocumentData st doc)) = Some r"
    and hdr: "lineAt doc (int (startLine r) - 1) = Inr header"
    and indent: "takeWhile isSpace header = js ''  ''"
    and lastLine: "lineAt doc (int (endLine r)) = Inr lastLine"
    and replacement: "newText edit = js ''a\<newline>b''"
  shows "fst (formattingEditsResponse st doc (Some [edit])) =
           Inr (Some [\<lparr>editRange = \<lparr>startPos = \<lparr>line = startLine r, character = 0\<rparr>,
                                    endPos = \<lparr>line = endLine r, character = length lastLine\<rparr>\<rparr>,
                       newText = js ''    a\<newline>    b''\<rparr>]) \<and>
         fst (provideDocumentFormattingEdits st doc (Inr (Some [edit]))) =
           fst (formattingEditsResponse st doc (Some [edit]))"
proof -
  obtain c st' where g: "getEmbeddedMQLCachedDocumentData st doc = (c, st')"
    by (cases "getEmbeddedMQLCachedDocumentData st doc")
  with reg have rc: "region c = Some r" by simp
  have ord: "startLine r \<le> endLine r" by (rule getCached_wellFormed(2)[OF wf g rc])
  have rng: "newRange \<lparr>line = startLine r, character = 0\<rparr>
                      \<lparr>line = endLine r, character = length lastLine\<rparr>
             = \<lparr>startPos = \<lparr>line = startLine r, character = 0\<rparr>,
                endPos = \<lparr>line = endLine r, character = length lastLine\<rparr>\<rparr>"
    using ord by (auto simp: newRange_def isBefore_def)
  have reindented: "join_newline (map (\<lambda>l. if trim l = [] then [] else (js ''  '' @ js ''  '') @ l)
                             (split_newline (js ''a\<newline>b'')))
             = js ''    a\<newline>    b''"
    by code_simp
  have resp: "fst (formattingEditsResponse s doc (Some [edit])) =
           Inr (Some [\<lparr>editRange = \<lparr>startPos = \<lparr>line = startLine r, character = 0\<rparr>,
                                    endPos = \<lparr>line = endLine r, character = length lastLine\<rparr>\<rparr>,
                       newText = js ''    a\<newline>    b''\<rparr>])"
    if "getEmbeddedMQLCachedDocumentData s doc = (c, s')" for s s'
    using that yaml rc hdr indent lastLine replacement rng reindented
    by (simp add: formattingEditsResponse_def Let_def)
  have "provideDocumentFormattingEdits st doc (Inr (Some [edit]))
        = formattingEditsResponse st' doc (Some [edit])"
    using yaml rc g by (simp add: provideDocumentFormattingEdits_def isInsideValidMQLRegion_def)
  with resp[OF g] resp[OF getCached_again[OF g]] show ?thesis by simp
qed

theorem formatting_single_edit_reindented_witness:
  "fst (formattingEditsResponse
          \<lparr>documentCache =
             [''r.yml'' \<mapsto> \<lparr>cacheVersion = 2,
                            region = Some \<lparr>startLine = 2, endLine = 3\<rparr>,
                            maskedText = js ''\<newline>\<newline>    x\<newline>    y''\<rparr>],
           openedYAMLDocuments = {''r.yml''}, languageID = ''mql''\<rparr>
          \<lparr>uri = ''r.yml'', languageId = ''yaml'', version = 2,
           getText = js ''rule:\<newline>  source: |\<newline>    x\<newline>    y'',
           lineTexts = [js ''rule:'', js ''  source: |'', js ''    x'', js ''    y'']\<rparr>
          (Some [\<lparr>editRange = \<lparr>startPos = \<lparr>line = 0, character = 0\<rparr>,
                               endPos = \<lparr>line = 3, character = 5\<rparr>\<rparr>,
                  newText = js ''a\<newline>b''\<rparr>]))
   = Inr (Some [\<lparr>editRange = \<lparr>startPos = \<lparr>line = 2, character = 0\<rparr>,
                              endPos = \<lparr>line = 3, character = 5\<rparr>\<rparr>,
                 newText = js ''    a\<newline>    b''\<rparr>])"
proof -
  let ?st = "\<lparr>documentCache =
             [''r.yml'' \<mapsto> \<lparr>cacheVersion = 2,
                            region = Some \<lparr>startLine = 2, endLine = 3\<rparr>,
                            maskedText = js ''\<newline>\<newline>    x\<newline>    y''\<rparr>],
           openedYAMLDocuments = {''r.yml''}, languageID = ''mql''\<rparr>"
  let ?doc = "\<lparr>uri = ''r.yml'', languageId = ''yaml'', version = 2,
           getText = js ''rule:\<newline>  source: |\<newline>    x\<newline>    y'',
           lineTexts = [js ''rule:'', js ''  source: |'', js ''    x'', js ''    y'']\<rparr>"
  let ?r = "\<lparr>startLine = 2, endLine = 3\<rparr>"
  have wf: "cacheWellFormed ?st" by (auto simp: cacheWellFormed_def split: if_splits)
  have reg: "region (fst (getEmbeddedMQLCachedDocumentData ?st ?doc)) = Some ?r"
    by (simp add: getEmbeddedMQLCachedDocumentData_def)
  have hdr: "lineAt ?doc (int (startLine ?r) - 1) = Inr (js ''  source: |'')"
    by (simp add: lineAt_def)
  have ind: "takeWhile isSpace (js ''  source: |'') = js ''  ''" by code_simp
  have lst: "lineAt ?doc (int (endLine ?r)) = Inr (js ''    y'')"
    by (simp add: lineAt_def)
  have len: "length (js ''    y'') = 5" by (simp add: js_def)
  from formatting_single_edit_reindented[OF _ wf reg hdr ind lst, of
         "\<lparr>editRange = \<lparr>startPos = \<lparr>line = 0, character = 0\<rparr>,
                               endPos = \<lparr>line = 3, character = 5\<rparr>\<rparr>,
                  newText = js ''a\<newline>b''\<rparr>"]
  show ?thesis by (simp add: len)
qed

text \<open>
  Claim C8. For a YAML document with a cached region, a formatting response with zero
  edits or with two or more edits gives the editor no edit to apply, and the result is
  not an error: the empty list is returned as it is, a longer list becomes
  \<open>undefined\<close>.
\<close>

theorem formatting_zero_or_many_edits_suppressed:
  assumes "languageId doc = ''yaml''"
    and "region (fst (getEmbeddedMQLCachedDocumentData st doc)) = Some r"
    and "length es \<noteq> 1"
  shows "fst (formattingEditsResponse st doc (Some es)) = (if es = [] then Inr (Some []) else Inr None) \<and>
         carriesNoEdit (fst (formattingEditsResponse st doc (Some es))) \<and>
         carriesNoEdit (fst (provideDocumentFormattingEdits st doc (Inr (Some es))))"
proof -
  obtain c st' where g: "getEmbeddedMQLCachedDocumentData st doc = (c, st')"
    by (cases "getEmbeddedMQLCachedDocumentData st doc")
  have 1: "fst (formattingEditsResponse s doc (Some es)) = (if es = [] then Inr (Some []) else Inr None)" for s
    using assms(1,3)
    by (cases "getEmbeddedMQLCachedDocumentData s doc")
       (simp add: formattingEditsResponse_def)
  have "provideDocumentFormattingEdits st doc (Inr (Some es)) = formattingEditsResponse st' doc (Some es)"
    using assms(1,2) g by (simp add: provideDocumentFormattingEdits_def isInsideValidMQLRegion_def)
  with 1 show ?thesis by simp
qed

theorem formatting_zero_or_many_edits_suppressed_witness:
  "fst (formattingEditsResponse
          \<lparr>documentCache =
             [''r.yml'' \<mapsto> \<lparr>cacheVersion = 2,
                            region = Some \<lparr>startLine = 1, endLine = 1\<rparr>,
                            maskedText = js ''\<newline>  x''\<rparr>],
           openedYAMLDocuments = {''r.yml''}, languageID = ''mql''\<rparr>
          \<lparr>uri = ''r.yml'', languageId = ''yaml'', version = 2,
           getText = js ''source: |\<newline>  x'', lineTexts = [js ''source: |'', js ''  x'']\<rparr>
          (Some [\<lparr>editRange = \<lparr>startPos = \<lparr>line = 0, character = 0\<rparr>,
                               endPos = \<lparr>line = 0, character = 0\<rparr>\<rparr>, newText = js ''a''\<rparr>,
                 \<lparr>editRange = \<lparr>startPos = \<lparr>line = 1, character = 0\<rparr>,
                               endPos = \<lparr>line = 1, character = 3\<rparr>\<rparr>, newText = js ''b''\<rparr>]))
   = Inr None"
proof -
  let ?st = "\<lparr>documentCache =
             [''r.yml'' \<mapsto> \<lparr>cacheVersion = 2,
                            region = Some \<lparr>startLine = 1, endLine = 1\<rparr>,
                            maskedText = js ''\<newline>  x''\<rparr>],
           openedYAMLDocuments = {''r.yml''}, languageID = ''mql''\<rparr>"
  let ?doc = "\<lparr>uri = ''r.yml'', languageId = ''yaml'', version = 2,
           getText = js ''source: |\<newline>  x'', lineTexts = [js ''source: |'', js ''  x'']\<rparr>"
  have reg: "region (fst (getEmbeddedMQLCachedDocumentData ?st ?doc))
             = Some \<lparr>startLine = 1, endLine = 1\<rparr>"
    by (simp add: getEmbeddedMQLCachedDocumentData_def)
  from formatting_zero_or_many_edits_suppressed[OF _ reg, of
          "[\<lparr>editRange = \<lparr>startPos = \<lparr>line = 0, character = 0\<rparr>,
                               endPos = \<lparr>line = 0, character = 0\<rparr>\<rparr>, newText = js ''a''\<rparr>,
                 \<lparr>editRange = \<lparr>startPos = \<lparr>line = 1, character = 0\<rparr>,
                               endPos = \<lparr>line = 1, character = 3\<rparr>\<rparr>, newText = js ''b''\<rparr>]"]
  show ?thesis by simp
qed

text \<open>
  Claim C4, evaluated when the region goes away, or the document is closed, while the
  formatting request is in flight. In both runs the gate lets the request through
  (the text has a region). In the first, a change to a text without region is handled
  during the \<open>await\<close>; the response of one edit is then processed with no region cached
  and the handler raises a TypeError: \<open>cache.region!\<close> is \<open>undefined\<close> and
  \<open>region.startLine\<close> is read. In the second, the document is closed during the
  \<open>await\<close> and its cache entry deleted; the lookup after the \<open>await\<close> detects the
  region again from the document's text and the edit is returned.
\<close>

theorem formatting_response_after_edit_or_close_in_flight:
  "fst (isInsideValidMQLRegion
          \<lparr>documentCache = Map.empty, openedYAMLDocuments = {}, languageID = ''mql''\<rparr>
          \<lparr>uri = ''r.yml'', languageId = ''yaml'', version = 2,
           getText = js ''k: v\<newline>source: |\<newline>  x'',
           lineTexts = [js ''k: v'', js ''source: |'', js ''  x'']\<rparr> None) \<and>
   fst (formattingEditsResponse
          (snd (snd (didChange
             (snd (isInsideValidMQLRegion
                \<lparr>documentCache = Map.empty, openedYAMLDocuments = {}, languageID = ''mql''\<rparr>
                \<lparr>uri = ''r.yml'', languageId = ''yaml'', version = 2,
                 getText = js ''k: v\<newline>source: |\<newline>  x'',
                 lineTexts = [js ''k: v'', js ''source: |'', js ''  x'']\<rparr> None))
             \<lparr>uri = ''r.yml'', languageId = ''yaml'', version = 3, getText = js ''k: v'',
              lineTexts = [js ''k: v'']\<rparr> True)))
          \<lparr>uri = ''r.yml'', languageId = ''yaml'', version = 3, getText = js ''k: v'',
           lineTexts = [js ''k: v'']\<rparr>
          (Some [\<lparr>editRange = \<lparr>startPos = \<lparr>line = 0, character = 0\<rparr>,
                               endPos = \<lparr>line = 2, character = 3\<rparr>\<rparr>, newText = js ''x''\<rparr>]))
     = Inl TypeError \<and>
   documentCache
     (snd (snd (didClose
        (snd (isInsideValidMQLRegion
           \<lparr>documentCache = Map.empty, openedYAMLDocuments = {}, languageID = ''mql''\<rparr>
           \<lparr>uri = ''r.yml'', languageId = ''yaml'', version = 2,
            getText = js ''k: v\<newline>source: |\<newline>  x'',
            lineTexts = [js ''k: v'', js ''source: |'', js ''  x'']\<rparr> None))
        \<lparr>uri = ''r.yml'', languageId = ''yaml'', version = 2,
         getText = js ''k: v\<newline>source: |\<newline>  x'',
         lineTexts = [js ''k: v'', js ''source: |'', js ''  x'']\<rparr> True))) ''r.yml'' = None \<and>
   fst (formattingEditsResponse
          (snd (snd (didClose
             (snd (isInsideValidMQLRegion
                \<lparr>documentCache = Map.empty, openedYAMLDocuments = {}, languageID = ''mql''\<rparr>
                \<lparr>uri = ''r.yml'', languageId = ''yaml'', version = 2,
                 getText = js ''k: v\<newline>source: |\<newline>  x'',
                 lineTexts = [js ''k: v'', js ''source: |'', js ''  x'']\<rparr> None))
             \<lparr>uri = ''r.yml'', languageId = ''yaml'', version = 2,
              getText = js ''k: v\<newline>source: |\<newline>  x'',
              lineTexts = [js ''k: v'', js ''source: |'', js ''  x'']\<rparr> True)))
          \<lparr>uri = ''r.yml'', languageId = ''yaml'', version = 2,
           getText = js ''k: v\<newline>source: |\<newline>  x'',
           lineTexts = [js ''k: v'', js ''source: |'', js ''  x'']\<rparr>
          (Some [\<lparr>editRange = \<lparr>startPos = \<lparr>line = 0, character = 0\<rparr>,
                               endPos = \<lparr>line = 2, character = 3\<rparr>\<rparr>, newText = js ''x''\<rparr>]))
     = Inr (Some [\<lparr>editRange = \<lparr>startPos = \<lparr>line = 2, character = 0\<rparr>,
                                endPos = \<lparr>line = 2, character = 3\<rparr>\<rparr>,
                   newText = js ''  x''\<rparr>])"
  by code_simp

end
